theory Spec2Isabelle
  imports Complex_Main "HOL-Library.Multiset"
begin

section \<open>Data model\<close>

text \<open>
  The records follow the Prisma schema (\<^verbatim>\<open>model Question\<close>, \<^verbatim>\<open>model QuestionWithAddedTime\<close>,
  \<^verbatim>\<open>model Attempt\<close>, \<^verbatim>\<open>model Mastery\<close>, \<^verbatim>\<open>model Topic\<close>) and the shapes the pages use
  (\<^verbatim>\<open>UCQATAnswersType\<close>, the zod schema of the question editor). Where two models share a
  column name, the later record prefixes it. Prisma \<^verbatim>\<open>Int\<close> columns are \<open>int\<close>, \<^verbatim>\<open>DateTime\<close>
  columns are \<open>int\<close> time stamps, \<^verbatim>\<open>Float\<close> columns are \<open>real\<close>, nullable columns and optional
  JSON members are \<open>option\<close>.
\<close>

record Answer =
  key :: string
  answerContent :: string
  isCorrect :: bool
  isLatex :: bool

record Variable =
  name :: string
  randomize :: bool
  isFinalAnswer :: bool
  unit_v :: "string option"
  default_v :: "string option"
  min_v :: "real option"
  max_v :: "real option"
  decimalPlaces :: "nat option"
  step_v :: "real option"

record Method =
  expr :: string
  explanation :: "string option"

record QuestionDataType =
  variables :: "Variable list option"
  methods :: "Method list option"
  hints :: "string list option"
  answers :: "Answer list option"

datatype Level = Foundational | Intermediate | Advanced

datatype QuestionDifficulty = Easy | Medium | Hard

record Topic =
  t_topicSlug :: string
  topicName :: string
  topicLevel :: Level
  topicPrior :: real

record Mastery =
  m_userId :: string
  m_topicSlug :: string
  masteryLevel :: real
  topicPing :: bool
  lastFlagged :: "int option"
  errorMeter :: int
  weeklyMasteryLevel :: real
  fortnightlyMasteryLevel :: real

text \<open>
  A relation field of a Prisma model (\<^verbatim>\<open>topic Topic @relation(...)\<close>,
  \<^verbatim>\<open>question Question @relation(...)\<close>) is a field of the record: the row it points to.
\<close>

record Question =
  questionId :: int
  variationId :: int
  topicSlug :: string
  questionTitle :: string
  questionDifficulty :: QuestionDifficulty
  questionContent :: string
  questionData :: "QuestionDataType option"
  topic :: Topic

record QuestionWithAddedTime =
  qatId :: string
  qat_questionId :: int
  qat_variationId :: int
  userId :: string
  courseSlug :: string
  qat_variables :: "Variable list option"
  qat_answers :: "Answer list"
  addedTime :: int
  question :: Question

record Attempt =
  attemptId :: string
  a_qatId :: string
  a_userId :: string
  a_courseSlug :: string
  attemptedKeys :: "string list"
  a_isCorrect :: bool
  submittedAt :: int

text \<open>The two tables the question-serving endpoint and the claims about it speak of.\<close>

record Db =
  qatTable :: "QuestionWithAddedTime list"
  attemptTable :: "Attempt list"

section \<open>Quiz page: correctness of a submitted selection\<close>

text \<open>
  \<^verbatim>\<open>correctKeys = answerOptions.filter((item) => item.isCorrect).map((item) => item.key)\<close>
\<close>

definition correctKeys :: "Answer list \<Rightarrow> string list" where
  "correctKeys answerOptions = map key (filter isCorrect answerOptions)"

text \<open>
  The \<^verbatim>\<open>isCorrect\<close> member of the body that the form's \<^verbatim>\<open>onSubmit\<close> sends:
  \<^verbatim>\<open>selectedKeys.length === correctKeys.length && selectedKeys.every((item) => correctKeys.includes(item))\<close>.
\<close>

definition computeIsCorrect :: "string list \<Rightarrow> Answer list \<Rightarrow> bool" where
  "computeIsCorrect selectedKeys answerOptions =
     (length selectedKeys = length (correctKeys answerOptions) \<and>
      list_all (\<lambda>item. item \<in> set (correctKeys answerOptions)) selectedKeys)"

datatype SubmitOutcome =
    ToastSelectAnOption
  | SubmitAnswer (body_attemptedKeys: "string list") (body_isCorrect: bool)

text \<open>
  The form's \<^verbatim>\<open>onSubmit\<close>: an empty selection only raises the toast
  \<^verbatim>\<open>"Please select an option"\<close>; otherwise \<^verbatim>\<open>submitAnswer\<close> is called with the selection and
  the computed correctness.
\<close>

definition onSubmit :: "string list \<Rightarrow> Answer list \<Rightarrow> SubmitOutcome" where
  "onSubmit selectedKeys answerOptions =
     (if length selectedKeys = 0 then ToastSelectAnOption
      else SubmitAnswer selectedKeys (computeIsCorrect selectedKeys answerOptions))"

section \<open>Question editor: variation id of a new static variation\<close>

text \<open>
  \<^verbatim>\<open>variationIds.reduce((acc, curr) => { if (curr > acc && !variationIds.includes(acc)) return acc;
  return curr + 1; }, 1)\<close>, commented in the source as
  \<^verbatim>\<open>// Get the smallest id not already used (in case of gaps)\<close>.
\<close>

definition unusedVariationId :: "int list \<Rightarrow> int" where
  "unusedVariationId variationIds =
     foldl (\<lambda>acc curr. if curr > acc \<and> acc \<notin> set variationIds then acc else curr + 1)
       1 variationIds"

section \<open>Question-serving endpoint\<close>

subsection \<open>The excluded id set\<close>

text \<open>
  Strings are the UTF-8 bytes of the JavaScript strings. The table holds the encodings of
  the characters that ECMAScript counts as white space or line terminator (\<^verbatim>\<open>StrWhiteSpaceChar\<close>,
  also what \<^verbatim>\<open>String.prototype.trim\<close> strips): U+0009 to U+000D, U+0020, U+00A0, U+1680,
  U+2000 to U+200A, U+2028, U+2029, U+202F, U+205F, U+3000 and U+FEFF.
\<close>

definition whiteSpace :: "string list" where
  "whiteSpace =
     [[CHR 0x09], [CHR 0x0A], [CHR 0x0B], [CHR 0x0C], [CHR 0x0D], [CHR 0x20],
      [CHR 0xC2, CHR 0xA0],
      [CHR 0xE1, CHR 0x9A, CHR 0x80],
      [CHR 0xE2, CHR 0x80, CHR 0x80], [CHR 0xE2, CHR 0x80, CHR 0x81],
      [CHR 0xE2, CHR 0x80, CHR 0x82], [CHR 0xE2, CHR 0x80, CHR 0x83],
      [CHR 0xE2, CHR 0x80, CHR 0x84], [CHR 0xE2, CHR 0x80, CHR 0x85],
      [CHR 0xE2, CHR 0x80, CHR 0x86], [CHR 0xE2, CHR 0x80, CHR 0x87],
      [CHR 0xE2, CHR 0x80, CHR 0x88], [CHR 0xE2, CHR 0x80, CHR 0x89],
      [CHR 0xE2, CHR 0x80, CHR 0x8A],
      [CHR 0xE2, CHR 0x80, CHR 0xA8], [CHR 0xE2, CHR 0x80, CHR 0xA9],
      [CHR 0xE2, CHR 0x80, CHR 0xAF],
      [CHR 0xE2, CHR 0x81, CHR 0x9F],
      [CHR 0xE3, CHR 0x80, CHR 0x80],
      [CHR 0xEF, CHR 0xBB, CHR 0xBF]]"

text \<open>The entry of a table that a string starts with, and the string after all such entries.\<close>

definition leadingOf :: "string list \<Rightarrow> string \<Rightarrow> string option" where
  "leadingOf table s = find (\<lambda>w. w \<noteq> [] \<and> take (length w) s = w) table"

function skipLeading :: "string list \<Rightarrow> string \<Rightarrow> string" where
  "skipLeading table s =
     (case leadingOf table s of
        None \<Rightarrow> s
      | Some w \<Rightarrow> skipLeading table (drop (length w) s))"
  by pat_completeness auto
termination
proof (relation "measure (\<lambda>(table, s). length s)")
  show "wf (measure (\<lambda>(table, s). length s))" by simp
next
  fix table :: "string list" and s w :: string
  assume "leadingOf table s = Some w"
  then have "w \<noteq> []" and "take (length w) s = w"
    by (auto simp: leadingOf_def find_Some_iff)
  then have "s \<noteq> []" by auto
  with \<open>w \<noteq> []\<close> show "((table, drop (length w) s), (table, s)) \<in> measure (\<lambda>(table, s). length s)"
    by simp
qed

declare skipLeading.simps [simp del]

text \<open>
  The Number value of a non-negative integer: exact below \<open>2^53\<close>, otherwise rounded to 53
  significant bits, ties to even; \<open>None\<close> when the rounded value is beyond the range of a
  double (\<^verbatim>\<open>Infinity\<close>).
\<close>

fun bitLength :: "nat \<Rightarrow> nat" where
  "bitLength n = (if n = 0 then 0 else Suc (bitLength (n div 2)))"

declare bitLength.simps [simp del]

definition toNumber :: "nat \<Rightarrow> nat option" where
  "toNumber m =
     (if m < 2 ^ 53 then Some m
      else (let e = bitLength m - 53;
                q = m div 2 ^ e;
                r = m mod 2 ^ e;
                half = 2 ^ (e - 1);
                q' = (if half < r \<or> (r = half \<and> odd q) then q + 1 else q)
            in if q' * 2 ^ e < 2 ^ 1024 then Some (q' * 2 ^ e) else None))"

text \<open>
  \<^verbatim>\<open>parseInt(prevId, 10)\<close>: leading white space is skipped, one sign is read, then the longest
  run of decimal digits, whose value is converted to a Number. \<open>None\<close> is a result that is no
  integer: \<^verbatim>\<open>NaN\<close> (no digit) or an infinity.
\<close>

definition isDigit :: "char \<Rightarrow> bool" where
  "isDigit c = (c \<in> set ''0123456789'')"

definition digitValue :: "char \<Rightarrow> nat" where
  "digitValue c = of_char c - 48"

definition parseInt :: "string \<Rightarrow> int option" where
  "parseInt s =
     (let t = skipLeading whiteSpace s;
          negative = (case t of [] \<Rightarrow> False | c # _ \<Rightarrow> c = CHR ''-'');
          u = (case t of [] \<Rightarrow> t | c # r \<Rightarrow> if c = CHR ''-'' \<or> c = CHR ''+'' then r else t);
          ds = takeWhile isDigit u
      in if ds = [] then None
         else (case toNumber (foldl (\<lambda>a c. 10 * a + digitValue c) 0 ds) of
                 None \<Rightarrow> None
               | Some m \<Rightarrow> Some (if negative then - int m else int m)))"

definition excluded2025QuestionIds :: "int list" where
  "excluded2025QuestionIds =
     [89, 98, 90, 91, 92, 93, 94, 95, 96, 97,
      79, 106, 107, 108, 99, 74, 100, 101, 102, 103, 104, 105]"

text \<open>
  The list after the optional \<^verbatim>\<open>push\<close>: \<^verbatim>\<open>if (prevId)\<close> is false for an absent and for an
  empty parameter; the parsed number is appended unless the list \<^verbatim>\<open>includes\<close> it. The elements
  are JavaScript numbers, \<open>None\<close> being one that is no integer.
\<close>

definition excludedQuestionIds :: "string option \<Rightarrow> int option list" where
  "excludedQuestionIds prevId =
     (let excluded = map Some excluded2025QuestionIds in
      case prevId of
        None \<Rightarrow> excluded
      | Some p \<Rightarrow>
          if p = [] then excluded
          else (let numericPrevId = parseInt p in
                if numericPrevId \<in> set excluded then excluded else excluded @ [numericPrevId]))"

subsection \<open>The stored lookup\<close>

text \<open>
  The \<^verbatim>\<open>where\<close> clause of \<^verbatim>\<open>findFirst\<close>: \<^verbatim>\<open>userId\<close> and \<^verbatim>\<open>courseSlug\<close> equal to the session's
  user and the query's course (Prisma reads an \<^verbatim>\<open>undefined\<close> operand as no condition), and
  \<^verbatim>\<open>NOT: { questionId: { in: excluded2025QuestionIds } }\<close>. A number in the list that is
  no integer equals no question id. Attempts are not part of the clause.
\<close>

definition whereClause ::
  "string option \<Rightarrow> string option \<Rightarrow> int option list \<Rightarrow> QuestionWithAddedTime \<Rightarrow> bool" where
  "whereClause sessionUser slug excluded q =
     ((case sessionUser of None \<Rightarrow> True | Some u \<Rightarrow> userId q = u) \<and>
      (case slug of None \<Rightarrow> True | Some c \<Rightarrow> courseSlug q = c) \<and>
      Some (qat_questionId q) \<notin> set excluded)"

text \<open>
  \<^verbatim>\<open>orderBy: { addedTime: "desc" }\<close> and the first row: a row with the greatest
  \<^verbatim>\<open>addedTime\<close>. Among rows with equal time stamps the database may pick any; the model picks
  the one stored first.
\<close>

fun newestFirst :: "QuestionWithAddedTime list \<Rightarrow> QuestionWithAddedTime option" where
  "newestFirst [] = None"
| "newestFirst (q # qs) =
     (case newestFirst qs of
        None \<Rightarrow> Some q
      | Some r \<Rightarrow> if addedTime q < addedTime r then Some r else Some q)"

definition findFirst ::
  "string option \<Rightarrow> string option \<Rightarrow> int option list \<Rightarrow> Db \<Rightarrow> QuestionWithAddedTime option" where
  "findFirst sessionUser slug excluded db =
     newestFirst (filter (whereClause sessionUser slug excluded) (qatTable db))"

subsection \<open>Collaborators\<close>

text \<open>
  What a thrown JavaScript value looks like to the code that catches it: an \<^verbatim>\<open>Error\<close> with its
  \<^verbatim>\<open>cause\<close> and \<^verbatim>\<open>message\<close>, or some other value. A message is either the JSON text of an
  object with the members \<^verbatim>\<open>message, index, expr, sanitized, encoded\<close> (then \<^verbatim>\<open>JSON.parse\<close>
  gives these members back) or a text that \<^verbatim>\<open>JSON.parse\<close> rejects.
\<close>

record EvaluationError =
  e_message :: string
  e_index :: nat
  e_expr :: string
  e_sanitized :: string
  e_encoded :: string

datatype ErrorMessage = JsonText EvaluationError | PlainText string

datatype JsThrown = ErrorObject (cause: "string option") (message: ErrorMessage) | NonError

record EditorAnswer =
  ea_name :: string
  ea_unit :: "string option"
  ea_answerContent :: string
  incorrectAnswers :: "string list"

text \<open>What \<^verbatim>\<open>CustomEval\<close> returns, by the members its two callers read.\<close>

record Evaluated =
  questionVariables :: "Variable list"
  questionAnswers :: "Answer list"
  editorAnswers :: "EditorAnswer list"

text \<open>
  Modelled from the spec: \<^verbatim>\<open>CustomMath.shuffleArray\<close> is not among the sources. The spec asks
  for a random permutation drawn from the randomness source; the model is the Fisher-Yates
  exchange pass over the array, the \<open>i\<close>-th draw of the source choosing the partner of
  position \<open>i\<close>.
\<close>

fun exchangePass :: "(nat \<Rightarrow> nat) \<Rightarrow> nat \<Rightarrow> 'a list \<Rightarrow> 'a list" where
  "exchangePass rnd 0 xs = xs"
| "exchangePass rnd (Suc i) xs =
     (let j = rnd (Suc i) mod (Suc (Suc i))
      in exchangePass rnd i (xs[Suc i := xs ! j, j := xs ! Suc i]))"

definition shuffleArray :: "(nat \<Rightarrow> nat) \<Rightarrow> 'a list \<Rightarrow> 'a list" where
  "shuffleArray rnd xs = exchangePass rnd (length xs - 1) xs"

subsection \<open>The handler\<close>

text \<open>
  A request as the handler reads it: the session's user id (\<^verbatim>\<open>session?.user?.id\<close>) and the two
  query parameters. The environment supplies what the database and the runtime generate for a
  new row (\<^verbatim>\<open>@default(cuid())\<close>, \<^verbatim>\<open>@default(now())\<close>) and the randomness.
\<close>

record Request =
  sessionUserId :: "string option"
  query_courseSlug :: "string option"
  query_prevId :: "string option"

record Env =
  cuid :: string
  now :: int
  random :: "nat \<Rightarrow> nat"

text \<open>The collaborator calls the handler makes, in order, after the stored lookup.\<close>

datatype Call =
    CallRecommendQuestion "string option" int
  | CallCustomEval "Variable list option" "Method list option"
  | CallCreate QuestionWithAddedTime

datatype HandlerError =
    RecommendQuestionThrew string
  | CustomEvalThrew JsThrown
  | TypeError
  | PrismaValidationError

text \<open>
  The JSON body of the response: the row, with \<^verbatim>\<open>question\<close> and in it
  \<^verbatim>\<open>topic: { topicName }\<close>.
\<close>

record Response =
  r_qat :: QuestionWithAddedTime
  r_question :: Question
  r_topicName :: string

text \<open>
  \<^verbatim>\<open>prisma.questionWithAddedTime.create\<close> with the handler's \<^verbatim>\<open>data\<close>:
  \<^verbatim>\<open>variables: evaluatedQuestionData?.questionVariables ?? questionData.variables\<close> and
  \<^verbatim>\<open>answers: CustomMath.shuffleArray(questionData.answers ?? evaluatedQuestionData?.questionAnswers)\<close>.
  With neither answer set there is no array to shuffle and none to store, and without a user
  id or a course the required columns are missing: the call throws and nothing is stored.
\<close>

definition newInstance ::
  "Env \<Rightarrow> Request \<Rightarrow> Question \<Rightarrow> QuestionDataType \<Rightarrow> Evaluated option \<Rightarrow>
     HandlerError + QuestionWithAddedTime" where
  "newInstance env req recommendedQuestion qd evaluatedQuestionData =
     (case (case answers qd of
              Some a \<Rightarrow> Some a
            | None \<Rightarrow> map_option questionAnswers evaluatedQuestionData) of
        None \<Rightarrow> Inl TypeError
      | Some toShuffle \<Rightarrow>
          (case (sessionUserId req, query_courseSlug req) of
             (Some u, Some c) \<Rightarrow>
               Inr \<lparr>qatId = cuid env,
                    qat_questionId = questionId recommendedQuestion,
                    qat_variationId = variationId recommendedQuestion,
                    userId = u,
                    courseSlug = c,
                    qat_variables =
                      (case evaluatedQuestionData of
                         Some ev \<Rightarrow> Some (questionVariables ev)
                       | None \<Rightarrow> variables qd),
                    qat_answers = shuffleArray (random env) toShuffle,
                    addedTime = now env,
                    question = recommendedQuestion\<rparr>
           | _ \<Rightarrow> Inl PrismaValidationError))"

definition createAndRespond ::
  "Env \<Rightarrow> Request \<Rightarrow> Db \<Rightarrow> Call list \<Rightarrow> string \<Rightarrow> Question \<Rightarrow> QuestionDataType \<Rightarrow>
     Evaluated option \<Rightarrow> Db \<times> Call list \<times> (HandlerError + Response)" where
  "createAndRespond env req db calls recommendedTopicName recommendedQuestion qd ev =
     (case newInstance env req recommendedQuestion qd ev of
        Inl e \<Rightarrow> (db, calls, Inl e)
      | Inr row \<Rightarrow>
          (db\<lparr>qatTable := qatTable db @ [row]\<rparr>,
           calls @ [CallCreate row],
           Inr \<lparr>r_qat = row, r_question = recommendedQuestion,
                r_topicName = recommendedTopicName\<rparr>))"

text \<open>
  The handler. \<^verbatim>\<open>RecommendQuestion\<close> and \<^verbatim>\<open>CustomEval\<close> are imported from modules that are not
  among the sources; they are parameters, \<open>Inl\<close> being a throw. The result is the database
  after the request, the collaborator calls made, and the response or the error that ends the
  request.
\<close>

definition handler ::
  "(string option \<Rightarrow> int \<Rightarrow> string + string \<times> Question) \<Rightarrow>
   (Variable list option \<Rightarrow> Method list option \<Rightarrow> JsThrown + Evaluated) \<Rightarrow>
   Env \<Rightarrow> Request \<Rightarrow> Db \<Rightarrow> Db \<times> Call list \<times> (HandlerError + Response)" where
  "handler RecommendQuestion CustomEval env req db =
     (case findFirst (sessionUserId req) (query_courseSlug req)
             (excludedQuestionIds (query_prevId req)) db of
        Some stored \<Rightarrow>
          (db, [],
           Inr \<lparr>r_qat = stored, r_question = question stored,
                r_topicName = topicName (topic (question stored))\<rparr>)
      | None \<Rightarrow>
          (let calls = [CallRecommendQuestion (query_courseSlug req) 0] in
           case RecommendQuestion (query_courseSlug req) 0 of
             Inl e \<Rightarrow> (db, calls, Inl (RecommendQuestionThrew e))
           | Inr (recommendedTopicName, recommendedQuestion) \<Rightarrow>
               (case questionData recommendedQuestion of
                  None \<Rightarrow> (db, calls, Inl TypeError)
                | Some qd \<Rightarrow>
                    if variationId recommendedQuestion = 0 then
                      (let calls' = calls @ [CallCustomEval (variables qd) (methods qd)] in
                       case CustomEval (variables qd) (methods qd) of
                         Inl thrown \<Rightarrow> (db, calls', Inl (CustomEvalThrew thrown))
                       | Inr ev \<Rightarrow>
                           createAndRespond env req db calls' recommendedTopicName
                             recommendedQuestion qd (Some ev))
                    else
                      createAndRespond env req db calls recommendedTopicName
                        recommendedQuestion qd None)))"

text \<open>
  The spec's notion for comparison: the current instance of a user and a course is the most
  recent stored one with no matching attempt.
\<close>

definition hasAttempt :: "Db \<Rightarrow> QuestionWithAddedTime \<Rightarrow> bool" where
  "hasAttempt db q = list_ex (\<lambda>a. a_qatId a = qatId q) (attemptTable db)"

definition spec_currentInstance :: "Db \<Rightarrow> string \<Rightarrow> string \<Rightarrow> QuestionWithAddedTime option" where
  "spec_currentInstance db u c =
     newestFirst (filter (\<lambda>q. userId q = u \<and> courseSlug q = c \<and> \<not> hasAttempt db q) (qatTable db))"

section \<open>Welcome-quiz page\<close>

definition maxQnCount :: nat where
  "maxQnCount = 15"

text \<open>
  The state the component reads: the \<^verbatim>\<open>qnCount\<close> counter, \<^verbatim>\<open>user?.data.isNewUser\<close> (absent
  while the consent query has no data), the \<^verbatim>\<open>get-ucqat\<close> query (\<open>None\<close> while it has no
  result, else the \<^verbatim>\<open>data\<close> of the response, itself possibly empty), and the selection
  (\<^verbatim>\<open>selectedKeys\<close>). The last field counts the GET requests to the question-serving
  endpoint that the page has issued: the one at mount and one for every invalidation of
  \<^verbatim>\<open>["get-ucqat"]\<close>.
\<close>

record PageState =
  qnCount :: nat
  user_isNewUser :: "bool option"
  UCQAT :: "Response option option"
  page_selectedKeys :: "string list"
  ucqatRequests :: nat

datatype View = LoaderView | StayTunedView | ReviewView | QuestionFormView

text \<open>
  What \<^verbatim>\<open>QuizQuestion\<close> returns: the loader while there is no response, the
  \<^verbatim>\<open>"Stay tuned, more questions are coming your way!"\<close> text for a response without data, the
  review shell when \<^verbatim>\<open>qnCount === maxQnCount || !user?.data.isNewUser\<close>, else the question form.
\<close>

definition QuizQuestion :: "PageState \<Rightarrow> View" where
  "QuizQuestion st =
     (case UCQAT st of
        None \<Rightarrow> LoaderView
      | Some None \<Rightarrow> StayTunedView
      | Some (Some d) \<Rightarrow>
          if qnCount st = maxQnCount \<or> (case user_isNewUser st of None \<Rightarrow> True | Some n \<Rightarrow> \<not> n)
          then ReviewView else QuestionFormView)"

text \<open>
  \<^verbatim>\<open>onSuccess\<close> of the submit mutation: the selection is cleared, the counter is incremented,
  and \<^verbatim>\<open>if (qnCount < maxQnCount)\<close>, read from the render that issued the mutation, hence
  before the increment, the \<^verbatim>\<open>["get-ucqat"]\<close> query is invalidated. The invalidated query
  is mounted, so it requests the endpoint again; \<open>refetched\<close> is the data of that response.
\<close>

definition onSuccess :: "Response option \<Rightarrow> PageState \<Rightarrow> PageState" where
  "onSuccess refetched st =
     (if qnCount st < maxQnCount
      then st\<lparr>page_selectedKeys := [], qnCount := qnCount st + 1,
              UCQAT := Some refetched, ucqatRequests := ucqatRequests st + 1\<rparr>
      else st\<lparr>page_selectedKeys := [], qnCount := qnCount st + 1\<rparr>)"

text \<open>
  One answered question: the form exists only in the question view, its \<^verbatim>\<open>onSubmit\<close> sends
  nothing for an empty selection, and the mutation succeeds.
\<close>

definition answerQuestion :: "string list \<Rightarrow> Response option \<Rightarrow> PageState \<Rightarrow> PageState" where
  "answerQuestion keys refetched st =
     (if QuizQuestion st = QuestionFormView \<and> length keys \<noteq> 0
      then onSuccess refetched (st\<lparr>page_selectedKeys := keys\<rparr>)
      else st)"

text \<open>The page after mount, once the first response has arrived, for a new user.\<close>

definition mounted :: "Response \<Rightarrow> PageState" where
  "mounted first =
     \<lparr>qnCount = 0, user_isNewUser = Some True, UCQAT = Some (Some first),
      page_selectedKeys = [], ucqatRequests = 1\<rparr>"

text \<open>
  The \<^verbatim>\<open>get-ucqat\<close> query settles on the handler's outcome. The handler ends a request with
  \<^verbatim>\<open>res.status(200).json(userCourseQuestionsWithAddedTime)\<close>, so the \<^verbatim>\<open>data\<close> of a response is
  that object; when the handler throws, the request fails and the query keeps what it had.
\<close>

definition settle :: "HandlerError + Response \<Rightarrow> PageState \<Rightarrow> PageState" where
  "settle outcome st =
     (case outcome of
        Inr body \<Rightarrow> st\<lparr>UCQAT := Some (Some body)\<rparr>
      | Inl e \<Rightarrow> st)"

text \<open>The page of a new user at mount: the first request is out and nothing has arrived.\<close>

definition opened :: PageState where
  "opened =
     \<lparr>qnCount = 0, user_isNewUser = Some True, UCQAT = None,
      page_selectedKeys = [], ucqatRequests = 1\<rparr>"

section \<open>Question editor: method expressions and the preview\<close>

text \<open>
  \<^verbatim>\<open>String.prototype.trim\<close>: the white space characters at the start are dropped, then those
  at the end (read backwards, so against the reversed encodings).
\<close>

definition trim :: "string \<Rightarrow> string" where
  "trim s = rev (skipLeading (map rev whiteSpace) (rev (skipLeading whiteSpace s)))"

text \<open>
  The zod schema of a method's \<^verbatim>\<open>expr\<close>: \<^verbatim>\<open>z.string().trim().regex(/^[^=]+=[^=]+$/).min(1)\<close>.
  The regular expression reads a longest run without \<^verbatim>\<open>=\<close>, one \<^verbatim>\<open>=\<close>, and a run without
  \<^verbatim>\<open>=\<close> up to the end, both runs non-empty.
\<close>

definition matchesMethodRegex :: "string \<Rightarrow> bool" where
  "matchesMethodRegex s =
     (case dropWhile (\<lambda>c. c \<noteq> CHR ''='') s of
        [] \<Rightarrow> False
      | _ # r \<Rightarrow> takeWhile (\<lambda>c. c \<noteq> CHR ''='') s \<noteq> [] \<and> r \<noteq> [] \<and> CHR ''='' \<notin> set r)"

definition methodExprValid :: "string \<Rightarrow> bool" where
  "methodExprValid e = (matchesMethodRegex (trim e) \<and> 1 \<le> length (trim e))"

text \<open>
  Modelled from the spec: \<^verbatim>\<open>CustomEval\<close> is not among the sources. By the spec the methods are
  evaluated strictly in declaration order over the variables resolved so far; a method that is
  not exactly one \<^verbatim>\<open>=\<close>, or whose evaluation fails (undefined identifier, division by zero,
  domain error), fails the evaluation with an error that carries the method's index and the
  sanitized and the substituted form of its expression. The expression language itself
  (sampling, sanitizing, substitution, arithmetic, answer materialization) is a parameter.
\<close>

record Engine =
  resolveVariables :: "bool \<Rightarrow> Variable list \<Rightarrow> Variable list"
  sanitize :: "string \<Rightarrow> string"
  substitute :: "Variable list \<Rightarrow> string \<Rightarrow> string"
  compute :: "Variable list \<Rightarrow> string \<Rightarrow> string + Variable list"
  materialize :: "Variable list \<Rightarrow> Answer list \<times> EditorAnswer list"

definition evalMethod :: "Engine \<Rightarrow> nat \<Rightarrow> Variable list \<Rightarrow> Method \<Rightarrow> EvaluationError + Variable list" where
  "evalMethod eng i scope m =
     (let s = sanitize eng (expr m); enc = substitute eng scope s in
      if count_list (expr m) CHR ''='' \<noteq> 1
      then Inl \<lparr>e_message = ''Invalid expression'', e_index = i, e_expr = expr m,
                e_sanitized = s, e_encoded = enc\<rparr>
      else (case compute eng scope enc of
              Inl msg \<Rightarrow> Inl \<lparr>e_message = msg, e_index = i, e_expr = expr m,
                              e_sanitized = s, e_encoded = enc\<rparr>
            | Inr scope' \<Rightarrow> Inr scope'))"

fun evalMethods :: "Engine \<Rightarrow> nat \<Rightarrow> Variable list \<Rightarrow> Method list \<Rightarrow> EvaluationError + Variable list" where
  "evalMethods eng i scope [] = Inr scope"
| "evalMethods eng i scope (m # ms) =
     (case evalMethod eng i scope m of
        Inl err \<Rightarrow> Inl err
      | Inr scope' \<Rightarrow> evalMethods eng (Suc i) scope' ms)"

definition CustomEval ::
  "Engine \<Rightarrow> Variable list option \<Rightarrow> Method list option \<Rightarrow> bool \<Rightarrow> JsThrown + Evaluated" where
  "CustomEval eng variableDefs methodDefs toRandomize =
     (case (variableDefs, methodDefs) of
        (Some vs, Some ms) \<Rightarrow>
          (case evalMethods eng 0 (resolveVariables eng toRandomize vs) ms of
             Inl err \<Rightarrow> Inl (ErrorObject (Some ''invalid-methods'') (JsonText err))
           | Inr scope \<Rightarrow>
               Inr \<lparr>questionVariables = scope,
                    questionAnswers = fst (materialize eng scope),
                    editorAnswers = snd (materialize eng scope)\<rparr>)
      | _ \<Rightarrow> Inl (ErrorObject None (PlainText ''variables or methods missing'')))"

text \<open>The editor's preview pane and the toasts it raises.\<close>

datatype QuestionType = Dynamic | Static

datatype Toast =
    ToastNoVariables
  | ToastPreviewUpdated
  | ToastRandomized
  | ToastInvalidMethods (shown_message: string) (shown_index: nat) (shown_expr: string)
      (shown_sanitized: string) (shown_encoded: string)
  | ToastError ErrorMessage
  | ToastUnknownError

record PreviewState =
  preview :: string
  finalAnsPreview :: string
  toasts :: "Toast list"

definition invalidMessage :: string where
  "invalidMessage = CHR 0x5C # ''text{Invalid Variables or Methods}''"

definition joinWith :: "string \<Rightarrow> string list \<Rightarrow> string" where
  "joinWith sep xs = (case xs of [] \<Rightarrow> [] | y # ys \<Rightarrow> foldl (\<lambda>acc x. acc @ sep @ x) y ys)"

text \<open>
  \<^verbatim>\<open>`${item.name} ${item.unit ? "~(" + item.unit + ")" : ""} &= ${item.default}`\<close>
\<close>

definition unitText :: "string option \<Rightarrow> string" where
  "unitText u = (case u of None \<Rightarrow> [] | Some t \<Rightarrow> if t = [] then [] else ''~('' @ t @ '')'')"

definition variableLine :: "Variable \<Rightarrow> string" where
  "variableLine item =
     name item @ '' '' @ unitText (unit_v item) @ '' &= '' @
     (case default_v item of None \<Rightarrow> ''undefined'' | Some d \<Rightarrow> d)"

definition answerLine :: "EditorAnswer \<Rightarrow> string" where
  "answerLine item =
     ea_name item @ '' '' @ unitText (ea_unit item) @ '' &= '' @ ea_answerContent item @
     '' ~|~ '' @ joinWith ''~|~'' (incorrectAnswers item)"

definition lineBreak :: string where
  "lineBreak = [CHR 0x5C, CHR 0x5C]"

text \<open>
  \<^verbatim>\<open>handlePreviewChange\<close>. The result of \<^verbatim>\<open>form.validate()\<close> is not read, so an invalid
  form is evaluated all the same. Variable names are trimmed first. A static question skips the
  evaluation. Otherwise \<^verbatim>\<open>CustomEval\<close> (a parameter, \<open>Inl\<close> being a throw) runs inside
  \<^verbatim>\<open>try\<close>; the \<^verbatim>\<open>catch\<close> block sets both previews to the invalid message and, for an
  \<^verbatim>\<open>Error\<close> whose cause is \<^verbatim>\<open>"invalid-methods"\<close>, parses the message and shows its five
  members; for any other thrown value it shows the message or \<^verbatim>\<open>"Unknown Error"\<close>. The only
  way out of the function by a throw is \<^verbatim>\<open>JSON.parse\<close> rejecting the message (\<open>Inl\<close>).
\<close>

definition handlePreviewChange ::
  "(Variable list option \<Rightarrow> Method list option \<Rightarrow> bool \<Rightarrow> JsThrown + Evaluated) \<Rightarrow>
   QuestionType \<Rightarrow> Variable list option \<Rightarrow> Method list option \<Rightarrow> bool \<Rightarrow> PreviewState \<Rightarrow>
   JsThrown + PreviewState" where
  "handlePreviewChange customEval questionType formVariables formMethods toRandomize ui =
     (let vars = map_option (map (\<lambda>variable. variable\<lparr>name := trim (name variable)\<rparr>)) formVariables in
      if questionType = Static then
        (case vars of
           None \<Rightarrow>
             Inr (ui\<lparr>preview := CHR 0x5C # ''text{No variables specified}'',
                     toasts := toasts ui @ [ToastNoVariables]\<rparr>)
         | Some vs \<Rightarrow>
             if length vs = 0
             then Inr (ui\<lparr>preview := CHR 0x5C # ''text{No variables specified}'',
                          toasts := toasts ui @ [ToastNoVariables]\<rparr>)
             else Inr (ui\<lparr>preview :=
                            joinWith lineBreak
                              (map variableLine (filter (\<lambda>item. \<not> isFinalAnswer item) vs)),
                          toasts := toasts ui @ [ToastPreviewUpdated]\<rparr>))
      else
        (case customEval vars formMethods toRandomize of
           Inr ev \<Rightarrow>
             Inr (ui\<lparr>preview := joinWith lineBreak (map variableLine (questionVariables ev)),
                     finalAnsPreview := joinWith lineBreak (map answerLine (editorAnswers ev)),
                     toasts := toasts ui @ [if toRandomize then ToastRandomized else ToastPreviewUpdated]\<rparr>)
         | Inl e \<Rightarrow>
             (case e of
                NonError \<Rightarrow>
                  Inr (ui\<lparr>preview := invalidMessage, finalAnsPreview := invalidMessage,
                          toasts := toasts ui @ [ToastUnknownError]\<rparr>)
              | ErrorObject c msg \<Rightarrow>
                  if c = Some ''invalid-methods'' then
                    (case msg of
                       PlainText t \<Rightarrow> Inl (ErrorObject None (PlainText ''SyntaxError''))
                     | JsonText error \<Rightarrow>
                         Inr (ui\<lparr>preview := invalidMessage, finalAnsPreview := invalidMessage,
                                 toasts := toasts ui @
                                   [ToastInvalidMethods (e_message error) (e_index error)
                                      (e_expr error) (e_sanitized error) (e_encoded error)]\<rparr>))
                  else
                    Inr (ui\<lparr>preview := invalidMessage, finalAnsPreview := invalidMessage,
                            toasts := toasts ui @ [ToastError msg]\<rparr>))))"

section \<open>Mastery records\<close>

text \<open>
  \<^verbatim>\<open>prisma.topic.create\<close> and \<^verbatim>\<open>prisma.mastery.create\<close> by the schema: a column left out of
  the call takes its \<^verbatim>\<open>@default\<close> (\<^verbatim>\<open>topicPrior 0.25\<close>; \<^verbatim>\<open>masteryLevel 0\<close>,
  \<^verbatim>\<open>topicPing false\<close>, \<^verbatim>\<open>errorMeter 0\<close>, both windowed levels \<open>0\<close>), \<^verbatim>\<open>lastFlagged\<close> is null.
\<close>

definition createTopic :: "string \<Rightarrow> string \<Rightarrow> Level \<Rightarrow> real option \<Rightarrow> Topic" where
  "createTopic slug tname level prior =
     \<lparr>t_topicSlug = slug, topicName = tname, topicLevel = level,
      topicPrior = (case prior of None \<Rightarrow> 0.25 | Some p \<Rightarrow> p)\<rparr>"

definition createMastery :: "string \<Rightarrow> string \<Rightarrow> real option \<Rightarrow> Mastery" where
  "createMastery uid slug level =
     \<lparr>m_userId = uid, m_topicSlug = slug,
      masteryLevel = (case level of None \<Rightarrow> 0 | Some l \<Rightarrow> l),
      topicPing = False, lastFlagged = None, errorMeter = 0,
      weeklyMasteryLevel = 0, fortnightlyMasteryLevel = 0\<rparr>"

definition findMastery :: "string \<Rightarrow> string \<Rightarrow> Mastery list \<Rightarrow> Mastery option" where
  "findMastery uid slug masteries =
     find (\<lambda>m. m_userId m = uid \<and> m_topicSlug m = slug) masteries"

text \<open>
  Modelled from the spec: the code that creates a Mastery row is not among the sources (only
  the schema is). By the spec, \<^verbatim>\<open>initialize(topic)\<close> creates a record when none exists for the
  user and the topic, with the topic's prior as mastery level; an existing record is kept.
\<close>

definition initialize :: "Topic \<Rightarrow> string \<Rightarrow> Mastery list \<Rightarrow> Mastery list" where
  "initialize t uid masteries =
     (case findMastery uid (t_topicSlug t) masteries of
        Some m \<Rightarrow> masteries
      | None \<Rightarrow> masteries @ [createMastery uid (t_topicSlug t) (Some (topicPrior t))])"

section \<open>Sample data\<close>

text \<open>Concrete inputs on which the theorems below are instantiated.\<close>

definition fourOptions :: "Answer list" where
  "fourOptions =
     [\<lparr>key = ''a'', answerContent = ''10'', isCorrect = True, isLatex = False\<rparr>,
      \<lparr>key = ''b'', answerContent = ''20'', isCorrect = False, isLatex = False\<rparr>,
      \<lparr>key = ''c'', answerContent = ''30'', isCorrect = True, isLatex = False\<rparr>,
      \<lparr>key = ''d'', answerContent = ''40'', isCorrect = False, isLatex = False\<rparr>]"

definition sampleTopic :: Topic where
  "sampleTopic = createTopic ''ohms-law'' ''Ohms Law'' Foundational None"

definition staticQuestion :: "int \<Rightarrow> Question" where
  "staticQuestion qid =
     \<lparr>questionId = qid, variationId = 1, topicSlug = ''ohms-law'',
      questionTitle = ''A static question'', questionDifficulty = Easy,
      questionContent = ''Pick the two right values'',
      questionData = Some \<lparr>variables = None, methods = None, hints = None,
                            answers = Some fourOptions\<rparr>,
      topic = sampleTopic\<rparr>"

definition sampleVariable :: Variable where
  "sampleVariable =
     \<lparr>name = ''R'', randomize = False, isFinalAnswer = False, unit_v = None,
      default_v = Some ''5'', min_v = None, max_v = None, decimalPlaces = None,
      step_v = None\<rparr>"

definition evaluatedOption :: Answer where
  "evaluatedOption =
     \<lparr>key = ''e'', answerContent = ''evaluated'', isCorrect = True, isLatex = False\<rparr>"


definition sampleEvaluated :: Evaluated where
  "sampleEvaluated =
     \<lparr>questionVariables = [sampleVariable\<lparr>default_v := Some ''7''\<rparr>],
      questionAnswers = [evaluatedOption], editorAnswers = []\<rparr>"

definition storedInstance :: "string \<Rightarrow> int \<Rightarrow> int \<Rightarrow> QuestionWithAddedTime" where
  "storedInstance qid question_id t =
     \<lparr>qatId = qid, qat_questionId = question_id, qat_variationId = 1, userId = ''u1'',
      courseSlug = ''welcome-quiz'', qat_variables = None, qat_answers = fourOptions,
      addedTime = t, question = staticQuestion question_id\<rparr>"

definition attemptOn :: "string \<Rightarrow> Attempt" where
  "attemptOn qid =
     \<lparr>attemptId = ''att-'' @ qid, a_qatId = qid, a_userId = ''u1'',
      a_courseSlug = ''welcome-quiz'', attemptedKeys = [''a'', ''c''], a_isCorrect = True,
      submittedAt = 3\<rparr>"

definition sampleRequest :: "string option \<Rightarrow> Request" where
  "sampleRequest prev =
     \<lparr>sessionUserId = Some ''u1'', query_courseSlug = Some ''welcome-quiz'',
      query_prevId = prev\<rparr>"

definition sampleEnv :: Env where
  "sampleEnv = \<lparr>cuid = ''qat-new'', now = 10, random = (\<lambda>i. 0)\<rparr>"

definition recommendStatic :: "int \<Rightarrow> string option \<Rightarrow> int \<Rightarrow> string + string \<times> Question" where
  "recommendStatic qid slug n = Inr (''Ohms Law'', staticQuestion qid)"


text \<open>A recommender that finds no eligible question in the course and throws.\<close>

definition recommendExhausted :: "string option \<Rightarrow> int \<Rightarrow> string + string \<times> Question" where
  "recommendExhausted slug n = Inl ''no eligible question''"

definition evalSample :: "Variable list option \<Rightarrow> Method list option \<Rightarrow> JsThrown + Evaluated" where
  "evalSample vs ms = Inr sampleEvaluated"

text \<open>
  The learner has answered question 5 (its instance has an attempt) and no other instance is
  stored.
\<close>

definition dbAnswered5 :: Db where
  "dbAnswered5 = \<lparr>qatTable = [storedInstance ''qat-1'' 5 1], attemptTable = [attemptOn ''qat-1'']\<rparr>"

text \<open>
  An older, answered instance of question 3 and a newer, unanswered instance of question 5.
\<close>

definition dbTwoInstances :: Db where
  "dbTwoInstances =
     \<lparr>qatTable = [storedInstance ''qat-1'' 3 1, storedInstance ''qat-2'' 5 2],
      attemptTable = [attemptOn ''qat-1'']\<rparr>"

definition emptyDb :: Db where
  "emptyDb = \<lparr>qatTable = [], attemptTable = []\<rparr>"


text \<open>
  An expression engine that accepts everything: no sampling, no rewriting, every computation
  succeeds and leaves the variables as they are.
\<close>

definition sampleEngine :: Engine where
  "sampleEngine =
     \<lparr>resolveVariables = (\<lambda>r vs. vs), sanitize = (\<lambda>e. e), substitute = (\<lambda>scope e. e),
      compute = (\<lambda>scope e. Inr scope), materialize = (\<lambda>scope. ([], []))\<rparr>"

text \<open>Two methods, the second with two \<^verbatim>\<open>=\<close> signs.\<close>

definition sampleMethods :: "Method list" where
  "sampleMethods =
     [\<lparr>expr = ''V = R * 2'', explanation = None\<rparr>,
      \<lparr>expr = ''P = V = R'', explanation = None\<rparr>]"

definition emptyPreview :: PreviewState where
  "emptyPreview = \<lparr>preview = [], finalAnsPreview = [], toasts = []\<rparr>"

section \<open>Properties of the quiz page's correctness check\<close>

lemma distinct_correctKeys:
  "distinct (map key answerOptions) \<Longrightarrow> distinct (correctKeys answerOptions)"
  unfolding correctKeys_def by (rule distinct_map_filter)

lemma computeIsCorrect_iff_subset:
  "computeIsCorrect selectedKeys answerOptions \<longleftrightarrow>
     length selectedKeys = length (correctKeys answerOptions) \<and>
     set selectedKeys \<subseteq> set (correctKeys answerOptions)"
  by (auto simp: computeIsCorrect_def list_all_iff)

lemma same_length_subset_eq:
  assumes "distinct xs" and "distinct ys" and "length xs = length ys" and "set xs \<subseteq> set ys"
  shows "set xs = set ys"
proof -
  have "card (set xs) = card (set ys)"
    using assms by (simp add: distinct_card)
  with assms(4) show ?thesis
    by (simp add: card_subset_eq)
qed

lemma set_correctKeys:
  "set (correctKeys answerOptions) = key ` {a \<in> set answerOptions. isCorrect a}"
  by (simp add: correctKeys_def)

text \<open>
  Claim C2. For answer options with pairwise distinct keys and a non-empty submitted selection
  of distinct keys, the \<^verbatim>\<open>isCorrect\<close> flag sent with the attempt is true exactly when the set
  of selected keys equals the set of keys of the options marked \<^verbatim>\<open>isCorrect\<close>.
\<close>

theorem C2_isCorrect_iff_selected_equals_correct:
  assumes "distinct (map key answerOptions)"
    and "distinct selectedKeys"
    and "selectedKeys \<noteq> []"
  shows "onSubmit selectedKeys answerOptions =
           SubmitAnswer selectedKeys
             (set selectedKeys = key ` {a \<in> set answerOptions. isCorrect a})"
proof -
  have d: "distinct (correctKeys answerOptions)"
    using assms(1) by (rule distinct_correctKeys)
  have "computeIsCorrect selectedKeys answerOptions \<longleftrightarrow>
          set selectedKeys = set (correctKeys answerOptions)"
  proof
    assume "computeIsCorrect selectedKeys answerOptions"
    then have "length selectedKeys = length (correctKeys answerOptions)"
      and "set selectedKeys \<subseteq> set (correctKeys answerOptions)"
      by (simp_all add: computeIsCorrect_iff_subset)
    with assms(2) d show "set selectedKeys = set (correctKeys answerOptions)"
      by (rule same_length_subset_eq)
  next
    assume eq: "set selectedKeys = set (correctKeys answerOptions)"
    then have "card (set selectedKeys) = card (set (correctKeys answerOptions))"
      by simp
    then have "length selectedKeys = length (correctKeys answerOptions)"
      using assms(2) d by (simp add: distinct_card)
    with eq show "computeIsCorrect selectedKeys answerOptions"
      by (simp add: computeIsCorrect_iff_subset)
  qed
  then have "computeIsCorrect selectedKeys answerOptions \<longleftrightarrow>
          set selectedKeys = key ` {a \<in> set answerOptions. isCorrect a}"
    by (simp only: set_correctKeys)
  with assms(3) show ?thesis
    by (simp add: onSubmit_def)
qed

text \<open>
  The spec's example: of four options \<open>a\<close> and \<open>c\<close> are marked correct; selecting both gives
  true, selecting one correct and one incorrect key gives false.
\<close>

lemma marked_correct_fourOptions:
  "key ` {a \<in> set fourOptions. isCorrect a} = set [''a'', ''c'']"
proof -
  have "map key (filter isCorrect fourOptions) = [''a'', ''c'']"
    by (simp add: fourOptions_def)
  then have "set (map key (filter isCorrect fourOptions)) = set [''a'', ''c'']"
    by (simp only:)
  then show ?thesis by simp
qed

theorem C2_two_of_four_witness:
  "onSubmit [''c'', ''a''] fourOptions = SubmitAnswer [''c'', ''a''] True \<and>
   onSubmit [''a'', ''b''] fourOptions = SubmitAnswer [''a'', ''b''] False"
proof -
  have d: "distinct (map key fourOptions)"
    by (simp add: fourOptions_def)
  have both: "onSubmit [''c'', ''a''] fourOptions =
      SubmitAnswer [''c'', ''a'']
        (set [''c'', ''a''] = key ` {a \<in> set fourOptions. isCorrect a})"
    by (rule C2_isCorrect_iff_selected_equals_correct [OF d]) simp_all
  have mixed: "onSubmit [''a'', ''b''] fourOptions =
      SubmitAnswer [''a'', ''b'']
        (set [''a'', ''b''] = key ` {a \<in> set fourOptions. isCorrect a})"
    by (rule C2_isCorrect_iff_selected_equals_correct [OF d]) simp_all
  have same: "set [''c'', ''a''] = key ` {a \<in> set fourOptions. isCorrect a}"
    unfolding marked_correct_fourOptions by (simp add: insert_commute)
  have differ: "set [''a'', ''b''] \<noteq> key ` {a \<in> set fourOptions. isCorrect a}"
  proof
    assume eq: "set [''a'', ''b''] = key ` {a \<in> set fourOptions. isCorrect a}"
    have "''b'' \<in> set [''a'', ''b'']" by simp
    then have "''b'' \<in> key ` {a \<in> set fourOptions. isCorrect a}" unfolding eq .
    then show False unfolding marked_correct_fourOptions by simp
  qed
  from both mixed same differ show ?thesis by simp
qed

section \<open>The gap-filling computation of the question editor\<close>

lemma gap_kept:
  "acc \<notin> S \<Longrightarrow> \<forall>x\<in>set suf. acc < x \<Longrightarrow>
   foldl (\<lambda>acc curr. if curr > acc \<and> acc \<notin> S then acc else curr + 1) acc suf = (acc::int)"
  by (induction suf) auto

lemma gap_scan:
  "sorted_wrt (<) suf \<Longrightarrow> \<forall>x\<in>set suf. (acc::int) \<le> x \<Longrightarrow> S \<inter> {acc..} \<subseteq> set suf \<Longrightarrow>
   set suf \<subseteq> S \<Longrightarrow>
   (let r = foldl (\<lambda>acc curr. if curr > acc \<and> acc \<notin> S then acc else curr + 1) acc suf
    in r \<notin> S \<and> acc \<le> r \<and> {acc..<r} \<subseteq> S)"
proof (induction suf arbitrary: acc)
  case Nil
  then show ?case by auto
next
  case (Cons c rest)
  show ?case
  proof (cases "c = acc")
    case True
    have 1: "sorted_wrt (<) rest" using Cons.prems(1) by simp
    have 2: "\<forall>x\<in>set rest. acc + 1 \<le> x" using Cons.prems(1) True by auto
    have 3: "S \<inter> {acc + 1..} \<subseteq> set rest" using Cons.prems(3) True by auto
    have 4: "set rest \<subseteq> S" using Cons.prems(4) by simp
    have cin: "acc \<in> S" using Cons.prems(4) True by simp
    define r where
      "r = foldl (\<lambda>acc curr. if curr > acc \<and> acc \<notin> S then acc else curr + 1) (acc + 1) rest"
    from Cons.IH[OF 1 2 3 4] have ih: "r \<notin> S" "acc + 1 \<le> r" "{acc + 1..<r} \<subseteq> S"
      by (simp_all add: Let_def r_def)
    have "{acc..<r} = insert acc {acc + 1..<r}" using ih(2) by auto
    with ih cin have "r \<notin> S \<and> acc \<le> r \<and> {acc..<r} \<subseteq> S" by auto
    then show ?thesis using True by (simp add: Let_def r_def)
  next
    case False
    then have lt: "acc < c" using Cons.prems(2) by auto
    then have a: "\<forall>x\<in>set (c # rest). acc < x" using Cons.prems(1) by auto
    then have "acc \<notin> S" using Cons.prems(3) by auto
    with a show ?thesis using gap_kept[of acc S "c # rest"] by (simp add: Let_def)
  qed
qed

text \<open>
  On an ascending list of positive ids the computation does what its comment says: the result
  is positive, unused, and every smaller positive id is used.
\<close>

lemma unusedVariationId_ascending:
  assumes "sorted_wrt (<) variationIds" and "\<forall>x\<in>set variationIds. 1 \<le> x"
  shows "unusedVariationId variationIds \<notin> set variationIds \<and>
         1 \<le> unusedVariationId variationIds \<and>
         (\<forall>n. 1 \<le> n \<and> n < unusedVariationId variationIds \<longrightarrow> n \<in> set variationIds)"
  using gap_scan [of variationIds 1 "set variationIds"] assms
  by (auto simp: Let_def unusedVariationId_def)

text \<open>
  Claim C5. The gap-filling computation is claimed to return the smallest positive id not in
  the list for every ordering of the list. On the list \<open>[2, 1]\<close> it returns \<open>2\<close>, an id that is
  in use, while the smallest unused positive id is \<open>3\<close>; on the same ids in ascending order it
  returns \<open>3\<close>.
\<close>

theorem C5_unusedVariationId_returns_used_id:
  "unusedVariationId [2, 1] = 2 \<and> 2 \<in> set [2, 1 :: int] \<and> unusedVariationId [1, 2] = 3"
  by (simp add: unusedVariationId_def)

section \<open>The question-serving endpoint: stored lookup and shuffle\<close>

lemma newestFirst_None_iff: "newestFirst qs = None \<longleftrightarrow> qs = []"
  by (induction qs) (auto split: option.splits)

lemma newestFirst_Some:
  "newestFirst qs = Some r \<Longrightarrow> r \<in> set qs \<and> (\<forall>q\<in>set qs. addedTime q \<le> addedTime r)"
proof (induction qs arbitrary: r)
  case Nil
  then show ?case by simp
next
  case (Cons q qs)
  show ?case
  proof (cases "newestFirst qs")
    case None
    then have "qs = []" by (simp add: newestFirst_None_iff)
    with Cons.prems None show ?thesis by simp
  next
    case (Some r')
    from Cons.IH[OF Some] have ih: "r' \<in> set qs" "\<forall>q\<in>set qs. addedTime q \<le> addedTime r'"
      by simp_all
    show ?thesis
    proof (cases "addedTime q < addedTime r'")
      case True
      with Cons.prems Some have "r = r'" by simp
      with ih True show ?thesis by auto
    next
      case False
      with Cons.prems Some have "r = q" by simp
      with ih False show ?thesis by (auto simp: not_less intro: order_trans)
    qed
  qed
qed

lemma findFirst_Some:
  assumes "findFirst u c ex db = Some r"
  shows "r \<in> set (qatTable db) \<and> whereClause u c ex r \<and>
         (\<forall>q\<in>set (qatTable db). whereClause u c ex q \<longrightarrow> addedTime q \<le> addedTime r)"
  using newestFirst_Some[OF assms[unfolded findFirst_def]] by auto

lemma findFirst_exists:
  assumes "q0 \<in> set (qatTable db)" and "whereClause u c ex q0"
  shows "\<exists>r. findFirst u c ex db = Some r"
proof -
  have "filter (whereClause u c ex) (qatTable db) \<noteq> []"
    using assms by (auto simp: filter_empty_conv)
  then have "newestFirst (filter (whereClause u c ex) (qatTable db)) \<noteq> None"
    by (simp add: newestFirst_None_iff)
  then show ?thesis by (auto simp: findFirst_def)
qed

lemma handler_stored:
  assumes "findFirst (sessionUserId req) (query_courseSlug req)
             (excludedQuestionIds (query_prevId req)) db = Some stored"
  shows "handler R E env req db =
           (db, [], Inr \<lparr>r_qat = stored, r_question = question stored,
                         r_topicName = topicName (topic (question stored))\<rparr>)"
  using assms by (simp add: handler_def)

lemma exchangePass_length: "length (exchangePass rnd i xs) = length xs"
  by (induction rnd i xs rule: exchangePass.induct) (simp_all add: Let_def)

lemma exchangePass_mset: "i < length xs \<Longrightarrow> mset (exchangePass rnd i xs) = mset xs"
proof (induction rnd i xs rule: exchangePass.induct)
  case (1 rnd xs)
  then show ?case by simp
next
  case (2 rnd i xs)
  define j where "j = rnd (Suc i) mod (Suc (Suc i))"
  have "j < Suc (Suc i)" unfolding j_def by (rule mod_less_divisor) simp
  then have j: "j < length xs" using "2.prems" by simp
  have sw: "mset (xs[Suc i := xs ! j, j := xs ! Suc i]) = mset xs"
    using mset_swap[of j xs "Suc i"] j "2.prems" by simp
  have "mset (exchangePass rnd i (xs[Suc i := xs ! j, j := xs ! Suc i])) =
          mset (xs[Suc i := xs ! j, j := xs ! Suc i])"
    using "2.IH"[of j] "2.prems" by (simp add: j_def)
  with sw show ?case by (simp add: Let_def j_def)
qed

lemma shuffleArray_mset: "mset (shuffleArray rnd xs) = mset xs"
proof (cases xs)
  case Nil
  then show ?thesis by (simp add: shuffleArray_def)
next
  case (Cons a list)
  then show ?thesis by (simp add: shuffleArray_def exchangePass_mset)
qed

section \<open>The question-serving endpoint: what is served\<close>

lemma parseInt_5: "parseInt ''5'' = Some 5"
  by (simp add: parseInt_def skipLeading.simps[of _ "''5''"] leadingOf_def whiteSpace_def
      isDigit_def digitValue_def toNumber_def)

text \<open>
  A no-break space before the digit is skipped, and an integer past \<open>2^53\<close> is rounded, as
  \<^verbatim>\<open>parseInt\<close> does.
\<close>

lemma parseInt_after_no_break_space: "parseInt [CHR 0xC2, CHR 0xA0, CHR ''5''] = Some 5"
proof -
  have "skipLeading whiteSpace [CHR 0xC2, CHR 0xA0, CHR ''5''] = ''5''"
    by (simp add: skipLeading.simps[of _ "[CHR 0xC2, CHR 0xA0, CHR ''5'']"]
        skipLeading.simps[of _ "''5''"] leadingOf_def whiteSpace_def)
  then show ?thesis
    by (simp add: parseInt_def isDigit_def digitValue_def toNumber_def)
qed

lemma bitLength_example: "bitLength 9007199254740993 = 54"
  by (simp add: bitLength.simps)

lemma toNumber_rounds: "toNumber 9007199254740993 = Some 9007199254740992"
  by (simp add: toNumber_def bitLength_example Let_def)

lemma parseInt_rounds: "parseInt ''9007199254740993'' = Some 9007199254740992"
proof -
  have "skipLeading whiteSpace ''9007199254740993'' = ''9007199254740993''"
    by (simp add: skipLeading.simps[of _ "''9007199254740993''"] leadingOf_def whiteSpace_def)
  then show ?thesis
    by (simp add: parseInt_def isDigit_def digitValue_def toNumber_rounds)
qed

lemma excluded_prev5: "excludedQuestionIds (Some ''5'') = map Some excluded2025QuestionIds @ [Some 5]"
  by (simp add: excludedQuestionIds_def parseInt_5 excluded2025QuestionIds_def)

lemma excluded_none: "excludedQuestionIds None = map Some excluded2025QuestionIds"
  by (simp add: excludedQuestionIds_def)

lemma excluded_after_no_break_space:
  "excludedQuestionIds (Some [CHR 0xC2, CHR 0xA0, CHR ''5'']) =
     map Some excluded2025QuestionIds @ [Some 5]"
  by (simp add: excludedQuestionIds_def parseInt_after_no_break_space excluded2025QuestionIds_def)

lemma findFirst_dbAnswered5_prev5:
  "findFirst (Some ''u1'') (Some ''welcome-quiz'') (excludedQuestionIds (Some ''5'')) dbAnswered5 = None"
  by (simp add: findFirst_def whereClause_def excluded_prev5 excluded2025QuestionIds_def
      dbAnswered5_def storedInstance_def)

lemma findFirst_dbAnswered5:
  "findFirst (Some ''u1'') (Some ''welcome-quiz'') (excludedQuestionIds None) dbAnswered5 =
     Some (storedInstance ''qat-1'' 5 1)"
  by (simp add: findFirst_def whereClause_def excluded_none excluded2025QuestionIds_def
      dbAnswered5_def storedInstance_def)

lemma findFirst_dbTwoInstances_prev5:
  "findFirst (Some ''u1'') (Some ''welcome-quiz'') (excludedQuestionIds (Some ''5'')) dbTwoInstances =
     Some (storedInstance ''qat-1'' 3 1)"
  by (simp add: findFirst_def whereClause_def excluded_prev5 excluded2025QuestionIds_def
      dbTwoInstances_def storedInstance_def)

lemma findFirst_dbTwoInstances:
  "findFirst (Some ''u1'') (Some ''welcome-quiz'') (excludedQuestionIds None) dbTwoInstances =
     Some (storedInstance ''qat-2'' 5 2)"
  by (simp add: findFirst_def whereClause_def excluded_none excluded2025QuestionIds_def
      dbTwoInstances_def storedInstance_def)

lemma findFirst_emptyDb: "findFirst u c ex emptyDb = None"
  by (simp add: findFirst_def emptyDb_def)

lemma topicName_static: "topicName (topic (question (storedInstance qid n t))) = ''Ohms Law''"
  by (simp add: storedInstance_def staticQuestion_def sampleTopic_def createTopic_def)

text \<open>
  Claim C1. The question returned by the endpoint is claimed never to have an excluded id (the
  hard-coded list plus \<^verbatim>\<open>prevId\<close>). The stored lookup filters by the excluded ids, but
  \<^verbatim>\<open>RecommendQuestion(courseSlug, 0)\<close> is not given them and its result is stored and
  returned unfiltered. Here the learner's only stored instance is of question 5, the request
  carries \<^verbatim>\<open>prevId=5\<close>, and the recommender proposes question 5: the handler creates and
  returns a new instance of question 5, an excluded id.
\<close>

theorem C1_recommended_question_is_excluded_prevId:
  "\<exists>db' calls resp.
     handler (recommendStatic 5) evalSample sampleEnv (sampleRequest (Some ''5'')) dbAnswered5 =
       (db', calls, Inr resp) \<and>
     qat_questionId (r_qat resp) = 5 \<and> questionId (r_question resp) = 5 \<and>
     calls = [CallRecommendQuestion (Some ''welcome-quiz'') 0, CallCreate (r_qat resp)] \<and>
     r_qat resp \<in> set (qatTable db') \<and>
     Some 5 \<in> set (excludedQuestionIds (query_prevId (sampleRequest (Some ''5''))))"
proof -
  have excluded: "Some 5 \<in> set (excludedQuestionIds (query_prevId (sampleRequest (Some ''5''))))"
    by (simp add: sampleRequest_def excluded_prev5)
  have "\<exists>db' calls resp.
     handler (recommendStatic 5) evalSample sampleEnv (sampleRequest (Some ''5'')) dbAnswered5 =
       (db', calls, Inr resp) \<and>
     qat_questionId (r_qat resp) = 5 \<and> questionId (r_question resp) = 5 \<and>
     calls = [CallRecommendQuestion (Some ''welcome-quiz'') 0, CallCreate (r_qat resp)] \<and>
     r_qat resp \<in> set (qatTable db')"
    by (simp add: handler_def sampleRequest_def findFirst_dbAnswered5_prev5 recommendStatic_def
        staticQuestion_def createAndRespond_def newInstance_def)
  with excluded show ?thesis by blast
qed

text \<open>
  Claim C3, as amended. For a signed-in user and a course with at least one stored instance
  whose question id is not excluded, the handler answers from the store without any change or
  collaborator call, and the instance served belongs to that user and course, has a question
  id that is not excluded, and no such instance has a later \<^verbatim>\<open>addedTime\<close>. Attempts are not
  consulted.
\<close>

theorem C3_served_is_newest_not_excluded:
  assumes "sessionUserId req = Some u" and "query_courseSlug req = Some c"
    and "q0 \<in> set (qatTable db)" and "userId q0 = u" and "courseSlug q0 = c"
    and "Some (qat_questionId q0) \<notin> set (excludedQuestionIds (query_prevId req))"
  shows "\<exists>stored.
           handler recommend eval env req db =
             (db, [], Inr \<lparr>r_qat = stored, r_question = question stored,
                           r_topicName = topicName (topic (question stored))\<rparr>) \<and>
           stored \<in> set (qatTable db) \<and> userId stored = u \<and> courseSlug stored = c \<and>
           Some (qat_questionId stored) \<notin> set (excludedQuestionIds (query_prevId req)) \<and>
           (\<forall>q\<in>set (qatTable db).
              userId q = u \<and> courseSlug q = c \<and>
              Some (qat_questionId q) \<notin> set (excludedQuestionIds (query_prevId req))
              \<longrightarrow> addedTime q \<le> addedTime stored)"
proof -
  let ?ex = "excludedQuestionIds (query_prevId req)"
  have w0: "whereClause (Some u) (Some c) ?ex q0"
    using assms(4-6) by (simp add: whereClause_def)
  from findFirst_exists[OF assms(3) w0] obtain stored
    where ff: "findFirst (Some u) (Some c) ?ex db = Some stored" by blast
  from findFirst_Some[OF ff]
  have 1: "stored \<in> set (qatTable db)" and 2: "whereClause (Some u) (Some c) ?ex stored"
    and 3: "\<forall>q\<in>set (qatTable db). whereClause (Some u) (Some c) ?ex q \<longrightarrow> addedTime q \<le> addedTime stored"
    by simp_all
  have h: "handler recommend eval env req db =
             (db, [], Inr \<lparr>r_qat = stored, r_question = question stored,
                           r_topicName = topicName (topic (question stored))\<rparr>)"
    by (rule handler_stored) (simp add: assms(1,2) ff)
  from 2 have 4: "userId stored = u" "courseSlug stored = c" "Some (qat_questionId stored) \<notin> set ?ex"
    by (simp_all add: whereClause_def)
  from 3 have 5: "\<forall>q\<in>set (qatTable db).
              userId q = u \<and> courseSlug q = c \<and> Some (qat_questionId q) \<notin> set ?ex
              \<longrightarrow> addedTime q \<le> addedTime stored"
    by (simp add: whereClause_def)
  from h 1 4 5 show ?thesis by blast
qed

theorem C3_newest_instance_witness:
  "handler (recommendStatic 9) evalSample sampleEnv (sampleRequest None) dbTwoInstances =
     (dbTwoInstances, [],
      Inr \<lparr>r_qat = storedInstance ''qat-2'' 5 2, r_question = staticQuestion 5,
           r_topicName = ''Ohms Law''\<rparr>)"
proof -
  let ?A = "storedInstance ''qat-1'' 3 1" and ?B = "storedInstance ''qat-2'' 5 2"
  have u: "sessionUserId (sampleRequest None) = Some ''u1''"
    and c: "query_courseSlug (sampleRequest None) = Some ''welcome-quiz''"
    and p: "query_prevId (sampleRequest None) = None"
    by (simp_all add: sampleRequest_def)
  have tab: "qatTable dbTwoInstances = [?A, ?B]"
    by (simp add: dbTwoInstances_def)
  have inB: "?B \<in> set (qatTable dbTwoInstances)"
    by (simp add: tab)
  have uB: "userId ?B = ''u1''" and cB: "courseSlug ?B = ''welcome-quiz''"
    and tB: "addedTime ?B = 2" and tA: "addedTime ?A = 1"
    by (simp_all add: storedInstance_def)
  have eB: "Some (qat_questionId ?B) \<notin> set (excludedQuestionIds (query_prevId (sampleRequest None)))"
    by (simp add: p excluded_none excluded2025QuestionIds_def storedInstance_def)
  from C3_served_is_newest_not_excluded [OF u c inB uB cB eB,
      of "recommendStatic 9" evalSample sampleEnv]
  obtain stored where h: "handler (recommendStatic 9) evalSample sampleEnv (sampleRequest None)
        dbTwoInstances =
      (dbTwoInstances, [], Inr \<lparr>r_qat = stored, r_question = question stored,
                                r_topicName = topicName (topic (question stored))\<rparr>)"
    and mem: "stored \<in> set (qatTable dbTwoInstances)"
    and newest: "\<forall>q\<in>set (qatTable dbTwoInstances).
              userId q = ''u1'' \<and> courseSlug q = ''welcome-quiz'' \<and>
              Some (qat_questionId q) \<notin> set (excludedQuestionIds (query_prevId (sampleRequest None)))
              \<longrightarrow> addedTime q \<le> addedTime stored"
    by blast
  from newest inB uB cB eB have "addedTime ?B \<le> addedTime stored" by blast
  then have "stored \<noteq> ?A" using tA tB by auto
  with mem have "stored = ?B" by (simp add: tab)
  with h show ?thesis
    by (simp add: topicName_static) (simp add: storedInstance_def)
qed

text \<open>
  Claim C3 as stated fails: the lookup has no condition on attempts. The only stored instance
  has an attempt and is served again, while the spec's current instance does not exist; and
  with \<^verbatim>\<open>prevId=5\<close> the newer, unanswered instance is excluded and the older, answered one
  is served, while the spec's current instance is the newer one.
\<close>

theorem C3_attempted_instance_served_again:
  "handler (recommendStatic 9) evalSample sampleEnv (sampleRequest None) dbAnswered5 =
     (dbAnswered5, [],
      Inr \<lparr>r_qat = storedInstance ''qat-1'' 5 1, r_question = staticQuestion 5,
           r_topicName = ''Ohms Law''\<rparr>) \<and>
   hasAttempt dbAnswered5 (storedInstance ''qat-1'' 5 1) \<and>
   spec_currentInstance dbAnswered5 ''u1'' ''welcome-quiz'' = None \<and>
   handler (recommendStatic 9) evalSample sampleEnv (sampleRequest (Some ''5'')) dbTwoInstances =
     (dbTwoInstances, [],
      Inr \<lparr>r_qat = storedInstance ''qat-1'' 3 1, r_question = staticQuestion 3,
           r_topicName = ''Ohms Law''\<rparr>) \<and>
   hasAttempt dbTwoInstances (storedInstance ''qat-1'' 3 1) \<and>
   spec_currentInstance dbTwoInstances ''u1'' ''welcome-quiz'' = Some (storedInstance ''qat-2'' 5 2)"
proof -
  have 1: "handler (recommendStatic 9) evalSample sampleEnv (sampleRequest None) dbAnswered5 =
     (dbAnswered5, [],
      Inr \<lparr>r_qat = storedInstance ''qat-1'' 5 1, r_question = staticQuestion 5,
           r_topicName = ''Ohms Law''\<rparr>)"
    by (simp add: handler_def sampleRequest_def findFirst_dbAnswered5 topicName_static)
      (simp add: storedInstance_def)
  have 2: "hasAttempt dbAnswered5 (storedInstance ''qat-1'' 5 1)"
    by (simp add: hasAttempt_def dbAnswered5_def storedInstance_def attemptOn_def)
  have 3: "spec_currentInstance dbAnswered5 ''u1'' ''welcome-quiz'' = None"
    by (simp add: spec_currentInstance_def hasAttempt_def dbAnswered5_def storedInstance_def
        attemptOn_def)
  have 4: "handler (recommendStatic 9) evalSample sampleEnv (sampleRequest (Some ''5'')) dbTwoInstances =
     (dbTwoInstances, [],
      Inr \<lparr>r_qat = storedInstance ''qat-1'' 3 1, r_question = staticQuestion 3,
           r_topicName = ''Ohms Law''\<rparr>)"
    by (simp add: handler_def sampleRequest_def findFirst_dbTwoInstances_prev5 topicName_static)
      (simp add: storedInstance_def)
  have 5: "hasAttempt dbTwoInstances (storedInstance ''qat-1'' 3 1)"
    by (simp add: hasAttempt_def dbTwoInstances_def storedInstance_def attemptOn_def)
  have 6: "spec_currentInstance dbTwoInstances ''u1'' ''welcome-quiz'' =
             Some (storedInstance ''qat-2'' 5 2)"
    by (simp add: spec_currentInstance_def hasAttempt_def dbTwoInstances_def storedInstance_def
        attemptOn_def)
  from 1 2 3 4 5 6 show ?thesis by simp
qed



text \<open>
  With a no-break space before the digit the id is excluded all the same: the older row of
  question 3 is served, not the row of question 5.
\<close>

lemma served_with_no_break_space_prevId:
  "handler (recommendStatic 9) evalSample sampleEnv
     (sampleRequest (Some [CHR 0xC2, CHR 0xA0, CHR ''5''])) dbTwoInstances =
     (dbTwoInstances, [],
      Inr \<lparr>r_qat = storedInstance ''qat-1'' 3 1, r_question = staticQuestion 3,
           r_topicName = ''Ohms Law''\<rparr>)"
proof -
  have "findFirst (Some ''u1'') (Some ''welcome-quiz'')
          (excludedQuestionIds (Some [CHR 0xC2, CHR 0xA0, CHR ''5''])) dbTwoInstances =
        Some (storedInstance ''qat-1'' 3 1)"
    by (simp add: findFirst_def whereClause_def excluded_after_no_break_space
        excluded2025QuestionIds_def dbTwoInstances_def storedInstance_def)
  then show ?thesis
    by (simp add: handler_def sampleRequest_def topicName_static) (simp add: storedInstance_def)
qed

section \<open>The question-serving endpoint: creating an instance\<close>

lemma newInstance_Inr:
  assumes "newInstance env req rq qd ev = Inr row"
  shows "(\<exists>a. (case answers qd of Some a \<Rightarrow> Some a | None \<Rightarrow> map_option questionAnswers ev) = Some a \<and>
              mset (qat_answers row) = mset a) \<and>
         qat_variables row = (case ev of Some e \<Rightarrow> Some (questionVariables e) | None \<Rightarrow> variables qd) \<and>
         qat_questionId row = questionId rq \<and> qat_variationId row = variationId rq \<and>
         question row = rq \<and> sessionUserId req = Some (userId row) \<and>
         query_courseSlug req = Some (courseSlug row) \<and> qatId row = cuid env \<and>
         addedTime row = now env"
proof -
  obtain a where a: "(case answers qd of Some a \<Rightarrow> Some a | None \<Rightarrow> map_option questionAnswers ev) = Some a"
    using assms by (cases "case answers qd of Some a \<Rightarrow> Some a | None \<Rightarrow> map_option questionAnswers ev")
      (simp_all add: newInstance_def)
  obtain u where u: "sessionUserId req = Some u"
    using assms a by (cases "sessionUserId req") (simp_all add: newInstance_def)
  obtain c where c: "query_courseSlug req = Some c"
    using assms a u by (cases "query_courseSlug req") (simp_all add: newInstance_def)
  from assms a u c have row: "row =
      \<lparr>qatId = cuid env, qat_questionId = questionId rq, qat_variationId = variationId rq,
       userId = u, courseSlug = c,
       qat_variables = (case ev of Some e \<Rightarrow> Some (questionVariables e) | None \<Rightarrow> variables qd),
       qat_answers = shuffleArray (random env) a, addedTime = now env, question = rq\<rparr>"
    by (simp add: newInstance_def)
  show ?thesis
    unfolding row using a u c by (simp add: shuffleArray_mset)
qed

lemma createAndRespond_Inr:
  assumes "createAndRespond env req db calls tn rq qd ev = (db', calls', Inr resp)"
  shows "newInstance env req rq qd ev = Inr (r_qat resp) \<and>
         db' = db\<lparr>qatTable := qatTable db @ [r_qat resp]\<rparr> \<and>
         calls' = calls @ [CallCreate (r_qat resp)] \<and>
         r_question resp = rq \<and> r_topicName resp = tn"
  using assms by (cases "newInstance env req rq qd ev") (auto simp: createAndRespond_def)

text \<open>
  Whatever \<^verbatim>\<open>RecommendQuestion\<close> proposes is what a successful creation stores and returns:
  the handler compares the proposal with nothing.
\<close>

lemma handler_returns_recommended:
  assumes nf: "findFirst (sessionUserId req) (query_courseSlug req)
             (excludedQuestionIds (query_prevId req)) db = None"
    and rec: "recommend (query_courseSlug req) 0 = Inr (tn, rq)"
    and h: "handler recommend eval env req db = (db', calls, Inr resp)"
  shows "qat_questionId (r_qat resp) = questionId rq \<and> r_question resp = rq"
proof -
  obtain qd where qd: "questionData rq = Some qd"
    using nf rec h by (cases "questionData rq") (simp_all add: handler_def)
  show ?thesis
  proof (cases "variationId rq = 0")
    case True
    obtain ev where ev: "eval (variables qd) (methods qd) = Inr ev"
      using nf rec h qd True by (cases "eval (variables qd) (methods qd)") (simp_all add: handler_def)
    from nf rec h qd True ev
    have c: "createAndRespond env req db
               [CallRecommendQuestion (query_courseSlug req) 0, CallCustomEval (variables qd) (methods qd)]
               tn rq qd (Some ev) = (db', calls, Inr resp)"
      by (simp add: handler_def)
    from createAndRespond_Inr[OF c]
    have "newInstance env req rq qd (Some ev) = Inr (r_qat resp)" and "r_question resp = rq"
      by simp_all
    with newInstance_Inr[of env req rq qd "Some ev" "r_qat resp"] show ?thesis by simp
  next
    case False
    from nf rec h qd False
    have c: "createAndRespond env req db [CallRecommendQuestion (query_courseSlug req) 0]
               tn rq qd None = (db', calls, Inr resp)"
      by (simp add: handler_def)
    from createAndRespond_Inr[OF c]
    have "newInstance env req rq qd None = Inr (r_qat resp)" and "r_question resp = rq"
      by simp_all
    with newInstance_Inr[of env req rq qd None "r_qat resp"] show ?thesis by simp
  qed
qed




section \<open>The welcome-quiz page\<close>

text \<open>
  The page has an empty state: a response without data renders the "Stay tuned" text,
  whatever the counter, the user flag and the selection are.
\<close>

lemma stay_tuned_for_response_without_data:
  "QuizQuestion (st\<lparr>UCQAT := Some None\<rparr>) = StayTunedView"
  by (simp add: QuizQuestion_def)

text \<open>
  The endpoint never sends such a response: every outcome of the handler is a thrown error
  or a body with a row in it, so after any request the page is not in the "Stay tuned" view
  unless it was there before.
\<close>

lemma settle_keeps_data:
  "UCQAT st \<noteq> Some None \<Longrightarrow> UCQAT (settle outcome st) \<noteq> Some None"
  by (cases outcome) (simp_all add: settle_def)

lemma stay_tuned_unreachable:
  assumes "UCQAT st \<noteq> Some None"
  shows "QuizQuestion (settle (snd (snd (handler recommend eval env req db))) st) \<noteq> StayTunedView"
proof -
  let ?st = "settle (snd (snd (handler recommend eval env req db))) st"
  from assms have "UCQAT ?st \<noteq> Some None" by (rule settle_keeps_data)
  then show ?thesis
    by (cases "UCQAT ?st") (auto simp: QuizQuestion_def split: option.splits)
qed

lemma handler_rethrows_recommender:
  assumes "findFirst (sessionUserId req) (query_courseSlug req)
             (excludedQuestionIds (query_prevId req)) db = None"
    and "recommend (query_courseSlug req) 0 = Inl e"
  shows "handler recommend eval env req db =
           (db, [CallRecommendQuestion (query_courseSlug req) 0], Inl (RecommendQuestionThrew e))"
  using assms by (simp add: handler_def)

text \<open>
  Claim C8. When the course has no question left to recommend, the page is claimed to render
  the "Stay tuned" text. The learner has no stored instance and the recommender finds
  nothing and throws: the handler has no branch for this, the exception ends the request,
  nothing is stored, the query never gets data, and the page renders the loader, not the
  "Stay tuned" text. No question form is rendered either.
\<close>

theorem C8_exhausted_course_renders_loader:
  "handler recommendExhausted evalSample sampleEnv (sampleRequest None) emptyDb =
     (emptyDb, [CallRecommendQuestion (Some ''welcome-quiz'') 0],
      Inl (RecommendQuestionThrew ''no eligible question'')) \<and>
   QuizQuestion
     (settle (snd (snd (handler recommendExhausted evalSample sampleEnv (sampleRequest None)
        emptyDb))) opened) = LoaderView"
proof -
  have h: "handler recommendExhausted evalSample sampleEnv (sampleRequest None) emptyDb =
     (emptyDb, [CallRecommendQuestion (Some ''welcome-quiz'') 0],
      Inl (RecommendQuestionThrew ''no eligible question''))"
    by (simp add: handler_def sampleRequest_def findFirst_emptyDb recommendExhausted_def)
  show ?thesis
    unfolding h by (simp add: settle_def opened_def QuizQuestion_def)
qed

text \<open>
  A session of a new user: after \<open>n \<le> 15\<close> answered questions the counter is \<open>n\<close> and the
  page has requested the endpoint \<open>n + 1\<close> times; from the fifteenth answer on the state no
  longer changes.
\<close>

lemma answered_n_times:
  assumes "keys \<noteq> []" and "n \<le> maxQnCount"
  shows "(answerQuestion keys (Some r) ^^ n) (mounted r) =
           \<lparr>qnCount = n, user_isNewUser = Some True, UCQAT = Some (Some r),
            page_selectedKeys = [], ucqatRequests = Suc n\<rparr>"
  using assms(2)
proof (induction n)
  case 0
  then show ?case by (simp add: mounted_def)
next
  case (Suc n)
  then have "n < maxQnCount" by simp
  with Suc assms(1) show ?case
    by (simp add: answerQuestion_def QuizQuestion_def onSuccess_def)
qed

lemma answered_after_max:
  assumes "keys \<noteq> []"
  shows "(answerQuestion keys (Some r) ^^ (maxQnCount + k)) (mounted r) =
           \<lparr>qnCount = maxQnCount, user_isNewUser = Some True, UCQAT = Some (Some r),
            page_selectedKeys = [], ucqatRequests = Suc maxQnCount\<rparr>"
proof (induction k)
  case 0
  show ?case using answered_n_times[OF assms, of maxQnCount r] by simp
next
  case (Suc k)
  then show ?case
    by (simp add: answerQuestion_def QuizQuestion_def)
qed

text \<open>
  Claim C10. The page is claimed to serve at most 15 questions and never to fetch another
  one once the counter has reached 15. The guard \<^verbatim>\<open>qnCount < maxQnCount\<close> in \<^verbatim>\<open>onSuccess\<close>
  reads the counter from before the increment, so it still holds at the fifteenth answer (14
  < 15): that answer sets the counter to 15, switches the page to the review view, and
  invalidates the question query, which is the sixteenth request to the endpoint.
\<close>

theorem C10_fifteenth_answer_requests_sixteenth_question:
  "qnCount ((answerQuestion [''a''] (Some r) ^^ 14) (mounted r)) = 14 \<and>
   ucqatRequests ((answerQuestion [''a''] (Some r) ^^ 14) (mounted r)) = 15 \<and>
   qnCount ((answerQuestion [''a''] (Some r) ^^ 15) (mounted r)) = maxQnCount \<and>
   QuizQuestion ((answerQuestion [''a''] (Some r) ^^ 15) (mounted r)) = ReviewView \<and>
   ucqatRequests ((answerQuestion [''a''] (Some r) ^^ 15) (mounted r)) = 16"
proof -
  have k: "[''a''] \<noteq> []" by simp
  have 14: "(14::nat) \<le> maxQnCount" and 15: "(15::nat) \<le> maxQnCount"
    by (simp_all add: maxQnCount_def)
  show ?thesis
    unfolding answered_n_times[OF k 14] answered_n_times[OF k 15]
    by (simp add: QuizQuestion_def maxQnCount_def)
qed

section \<open>The first mastery record\<close>

lemma find_append_last:
  "find P (xs @ [x]) = (case find P xs of Some y \<Rightarrow> Some y | None \<Rightarrow> if P x then Some x else None)"
  by (induction xs) simp_all

text \<open>
  Claim C6. When no mastery record exists for a user and a topic, \<open>initialize\<close> creates one
  whose mastery level is the topic's prior, whose error meter is 0 and whose flag
  (\<^verbatim>\<open>topicPing\<close>) is false; a topic created without a prior has the prior 0.25.
\<close>

theorem C6_first_mastery_record:
  assumes "findMastery uid (t_topicSlug t) masteries = None"
  shows "findMastery uid (t_topicSlug t) (initialize t uid masteries) =
           Some (createMastery uid (t_topicSlug t) (Some (topicPrior t))) \<and>
         masteryLevel (createMastery uid (t_topicSlug t) (Some (topicPrior t))) = topicPrior t \<and>
         errorMeter (createMastery uid (t_topicSlug t) (Some (topicPrior t))) = 0 \<and>
         topicPing (createMastery uid (t_topicSlug t) (Some (topicPrior t))) = False \<and>
         topicPrior (createTopic slug tname level None) = 0.25"
proof -
  have "initialize t uid masteries =
          masteries @ [createMastery uid (t_topicSlug t) (Some (topicPrior t))]"
    using assms by (simp add: initialize_def)
  moreover have "find (\<lambda>m. m_userId m = uid \<and> m_topicSlug m = t_topicSlug t) masteries = None"
    using assms by (simp add: findMastery_def)
  ultimately have "findMastery uid (t_topicSlug t) (initialize t uid masteries) =
           Some (createMastery uid (t_topicSlug t) (Some (topicPrior t)))"
    by (simp add: findMastery_def find_append_last createMastery_def)
  then show ?thesis
    by (simp add: createMastery_def createTopic_def)
qed

theorem C6_first_mastery_witness:
  "findMastery ''u1'' ''ohms-law'' (initialize sampleTopic ''u1'' []) =
     Some \<lparr>m_userId = ''u1'', m_topicSlug = ''ohms-law'', masteryLevel = 0.25,
           topicPing = False, lastFlagged = None, errorMeter = 0,
           weeklyMasteryLevel = 0, fortnightlyMasteryLevel = 0\<rparr>"
proof -
  have slug: "t_topicSlug sampleTopic = ''ohms-law''" and prior: "topicPrior sampleTopic = 0.25"
    by (simp_all add: sampleTopic_def createTopic_def)
  have none: "findMastery ''u1'' (t_topicSlug sampleTopic) [] = None"
    by (simp add: findMastery_def)
  from C6_first_mastery_record [OF none]
  have "findMastery ''u1'' (t_topicSlug sampleTopic) (initialize sampleTopic ''u1'' []) =
          Some (createMastery ''u1'' (t_topicSlug sampleTopic) (Some (topicPrior sampleTopic)))"
    by simp
  then show ?thesis
    by (simp add: slug prior createMastery_def)
qed

section \<open>The question editor: malformed method expressions\<close>

lemma leadingOf_Some:
  assumes "leadingOf table s = Some w"
  shows "w \<in> set table \<and> w \<noteq> [] \<and> s = w @ drop (length w) s"
proof -
  from assms have "w \<in> set table" and "w \<noteq> []" and t: "take (length w) s = w"
    by (auto simp: leadingOf_def find_Some_iff)
  moreover have "s = take (length w) s @ drop (length w) s" by simp
  ultimately show ?thesis by simp
qed

lemma count_list_skipLeading:
  assumes "\<forall>w\<in>set table. c \<notin> set w"
  shows "count_list (skipLeading table s) c = count_list s c"
  using assms
proof (induction table s rule: skipLeading.induct)
  case (1 table s)
  show ?case
  proof (cases "leadingOf table s")
    case None
    then show ?thesis by (simp add: skipLeading.simps[of table s])
  next
    case (Some w)
    from leadingOf_Some[OF Some] have w: "w \<in> set table" and s: "s = w @ drop (length w) s"
      by simp_all
    from w "1.prems" have "count_list w c = 0" by (simp add: count_list_0_iff)
    then have "count_list s c = count_list (drop (length w) s) c"
      by (subst s) simp
    moreover have "count_list (skipLeading table (drop (length w) s)) c =
                     count_list (drop (length w) s) c"
      using "1.IH"[OF Some] "1.prems" by simp
    ultimately show ?thesis using Some by (simp add: skipLeading.simps[of table s])
  qed
qed

lemma count_list_rev_eq: "count_list (rev xs) c = count_list xs c"
  by (induction xs) auto

lemma equals_in_no_whiteSpace:
  "\<forall>w\<in>set whiteSpace. CHR ''='' \<notin> set w"
  "\<forall>w\<in>set (map rev whiteSpace). CHR ''='' \<notin> set w"
  by (simp_all add: whiteSpace_def)

lemma count_list_trim: "count_list (trim e) CHR ''='' = count_list e CHR ''=''"
  by (simp add: trim_def count_list_rev_eq count_list_skipLeading equals_in_no_whiteSpace)

lemma trim_R: "trim ''R'' = ''R''"
  by (simp add: trim_def skipLeading.simps[of _ "''R''"] leadingOf_def whiteSpace_def)

text \<open>
  The schema trims Unicode white space before it matches: an expression that ends in \<^verbatim>\<open>=\<close>
  and a no-break space is rejected.
\<close>

lemma methodExprValid_trailing_no_break_space:
  "\<not> methodExprValid [CHR ''a'', CHR ''='', CHR 0xC2, CHR 0xA0]"
proof -
  have 1: "skipLeading whiteSpace [CHR ''a'', CHR ''='', CHR 0xC2, CHR 0xA0] =
             [CHR ''a'', CHR ''='', CHR 0xC2, CHR 0xA0]"
    by (simp add: skipLeading.simps[of _ "[CHR ''a'', CHR ''='', CHR 0xC2, CHR 0xA0]"]
        leadingOf_def whiteSpace_def)
  have 2: "skipLeading (map rev whiteSpace) [CHR 0xA0, CHR 0xC2, CHR ''='', CHR ''a''] = ''=a''"
    by (simp add: skipLeading.simps[of _ "[CHR 0xA0, CHR 0xC2, CHR ''='', CHR ''a'']"]
        skipLeading.simps[of _ "''=a''"] leadingOf_def whiteSpace_def)
  have "trim [CHR ''a'', CHR ''='', CHR 0xC2, CHR 0xA0] = ''a=''"
    by (simp add: trim_def 1) (simp add: 2)
  then show ?thesis
    by (simp add: methodExprValid_def matchesMethodRegex_def)
qed

lemma matchesMethodRegex_iff:
  "matchesMethodRegex s \<longleftrightarrow>
     (\<exists>a b. s = a @ CHR ''='' # b \<and> a \<noteq> [] \<and> b \<noteq> [] \<and>
            CHR ''='' \<notin> set a \<and> CHR ''='' \<notin> set b)"
proof
  assume m: "matchesMethodRegex s"
  let ?a = "takeWhile (\<lambda>c. c \<noteq> CHR ''='') s" and ?d = "dropWhile (\<lambda>c. c \<noteq> CHR ''='') s"
  from m obtain x r where d: "?d = x # r" and a: "?a \<noteq> []" and r: "r \<noteq> []" "CHR ''='' \<notin> set r"
    by (cases ?d) (simp_all add: matchesMethodRegex_def)
  have "x = hd ?d" using d by simp
  moreover have "?d \<noteq> []" using d by simp
  ultimately have x: "x = CHR ''=''" using hd_dropWhile[of "\<lambda>c. c \<noteq> CHR ''=''" s] by simp
  have "s = ?a @ ?d" by simp
  then have "s = ?a @ CHR ''='' # r" using d x by simp
  moreover have "CHR ''='' \<notin> set ?a" by (auto dest: set_takeWhileD)
  ultimately show "\<exists>a b. s = a @ CHR ''='' # b \<and> a \<noteq> [] \<and> b \<noteq> [] \<and>
            CHR ''='' \<notin> set a \<and> CHR ''='' \<notin> set b"
    using a r by blast
next
  assume "\<exists>a b. s = a @ CHR ''='' # b \<and> a \<noteq> [] \<and> b \<noteq> [] \<and>
            CHR ''='' \<notin> set a \<and> CHR ''='' \<notin> set b"
  then obtain a b where s: "s = a @ CHR ''='' # b" and ab: "a \<noteq> []" "b \<noteq> []"
    and na: "CHR ''='' \<notin> set a" and nb: "CHR ''='' \<notin> set b" by blast
  from na have all: "\<forall>x\<in>set a. x \<noteq> CHR ''=''" by auto
  have t: "takeWhile (\<lambda>c. c \<noteq> CHR ''='') s = a"
    unfolding s using all by (simp add: takeWhile_append2)
  have d: "dropWhile (\<lambda>c. c \<noteq> CHR ''='') s = CHR ''='' # b"
    unfolding s using all by (simp add: dropWhile_append2)
  show "matchesMethodRegex s"
    using ab nb by (simp add: matchesMethodRegex_def t d)
qed

lemma matchesMethodRegex_one_equals:
  assumes "matchesMethodRegex s"
  shows "count_list s CHR ''='' = 1"
proof -
  from assms obtain a b where s: "s = a @ CHR ''='' # b"
    and na: "CHR ''='' \<notin> set a" and nb: "CHR ''='' \<notin> set b"
    unfolding matchesMethodRegex_iff by blast
  from na nb have "count_list a CHR ''='' = 0" "count_list b CHR ''='' = 0"
    by (simp_all add: count_list_0_iff)
  then show ?thesis unfolding s by simp
qed

lemma methodExprValid_one_equals:
  assumes "methodExprValid e"
  shows "count_list e CHR ''='' = 1"
proof -
  from assms have "matchesMethodRegex (trim e)" by (simp add: methodExprValid_def)
  then have "count_list (trim e) CHR ''='' = 1" by (rule matchesMethodRegex_one_equals)
  then show ?thesis by (simp add: count_list_trim)
qed

lemma evalMethods_fails_at:
  assumes "evalMethods eng k scope0 (take i ms) = Inr scope"
    and "i < length ms"
    and "evalMethod eng (k + i) scope (ms ! i) = Inl err"
  shows "evalMethods eng k scope0 ms = Inl err"
  using assms
proof (induction ms arbitrary: k scope0 i)
  case Nil
  then show ?case by simp
next
  case (Cons m rest)
  show ?case
  proof (cases i)
    case 0
    with Cons.prems show ?thesis by simp
  next
    case (Suc j)
    from Cons.prems(1) Suc obtain s1 where s1: "evalMethod eng k scope0 m = Inr s1"
      and pre: "evalMethods eng (Suc k) s1 (take j rest) = Inr scope"
      by (cases "evalMethod eng k scope0 m") simp_all
    from Cons.prems(2,3) Suc have "j < length rest"
      and "evalMethod eng (Suc k + j) scope (rest ! j) = Inl err" by simp_all
    from Cons.IH[OF pre this] s1 show ?thesis by simp
  qed
qed

text \<open>
  Claim C7. Let the methods before index \<open>i\<close> evaluate, and let method \<open>i\<close> either not have
  exactly one \<^verbatim>\<open>=\<close> or fail in the expression engine. Then the evaluation throws an
  \<^verbatim>\<open>Error\<close> with cause \<^verbatim>\<open>"invalid-methods"\<close> whose message carries the index \<open>i\<close>, the
  expression, its sanitized and its substituted form; \<^verbatim>\<open>handlePreviewChange\<close> returns
  normally, with both previews set to the invalid message and a toast that shows the five
  members; and an expression that does not have exactly one \<^verbatim>\<open>=\<close> is rejected by the editor's
  schema.
\<close>

theorem C7_malformed_method_is_reported:
  assumes "i < length ms"
    and "evalMethods eng 0
           (resolveVariables eng r (map (\<lambda>variable. variable\<lparr>name := trim (name variable)\<rparr>) vs))
           (take i ms) = Inr scope"
    and "count_list (expr (ms ! i)) CHR ''='' \<noteq> 1 \<or>
         isl (compute eng scope (substitute eng scope (sanitize eng (expr (ms ! i)))))"
  shows "\<exists>msg.
           CustomEval eng (Some (map (\<lambda>variable. variable\<lparr>name := trim (name variable)\<rparr>) vs))
             (Some ms) r =
             Inl (ErrorObject (Some ''invalid-methods'')
                    (JsonText \<lparr>e_message = msg, e_index = i, e_expr = expr (ms ! i),
                               e_sanitized = sanitize eng (expr (ms ! i)),
                               e_encoded = substitute eng scope (sanitize eng (expr (ms ! i)))\<rparr>)) \<and>
           handlePreviewChange (CustomEval eng) Dynamic (Some vs) (Some ms) r ui =
             Inr (ui\<lparr>preview := invalidMessage, finalAnsPreview := invalidMessage,
                     toasts := toasts ui @
                       [ToastInvalidMethods msg i (expr (ms ! i)) (sanitize eng (expr (ms ! i)))
                          (substitute eng scope (sanitize eng (expr (ms ! i))))]\<rparr>) \<and>
           (count_list (expr (ms ! i)) CHR ''='' \<noteq> 1 \<longrightarrow> \<not> methodExprValid (expr (ms ! i)))"
proof -
  let ?m = "ms ! i"
  let ?s = "sanitize eng (expr ?m)"
  let ?enc = "substitute eng scope ?s"
  let ?vs = "map (\<lambda>variable. variable\<lparr>name := trim (name variable)\<rparr>) vs"
  have "\<exists>msg. evalMethod eng (0 + i) scope ?m =
          Inl \<lparr>e_message = msg, e_index = i, e_expr = expr ?m, e_sanitized = ?s, e_encoded = ?enc\<rparr>"
  proof (cases "count_list (expr ?m) CHR ''='' \<noteq> 1")
    case True
    then show ?thesis by (simp add: evalMethod_def Let_def)
  next
    case False
    with assms(3) have "isl (compute eng scope ?enc)" by simp
    then obtain msg where "compute eng scope ?enc = Inl msg"
      by (cases "compute eng scope ?enc") simp_all
    with False show ?thesis by (simp add: evalMethod_def Let_def)
  qed
  then obtain msg where em: "evalMethod eng (0 + i) scope ?m =
          Inl \<lparr>e_message = msg, e_index = i, e_expr = expr ?m, e_sanitized = ?s, e_encoded = ?enc\<rparr>"
    by blast
  from evalMethods_fails_at[OF assms(2) assms(1) em]
  have ce: "CustomEval eng (Some ?vs) (Some ms) r =
             Inl (ErrorObject (Some ''invalid-methods'')
                    (JsonText \<lparr>e_message = msg, e_index = i, e_expr = expr ?m,
                               e_sanitized = ?s, e_encoded = ?enc\<rparr>))"
    by (simp add: CustomEval_def)
  have hp: "handlePreviewChange (CustomEval eng) Dynamic (Some vs) (Some ms) r ui =
             Inr (ui\<lparr>preview := invalidMessage, finalAnsPreview := invalidMessage,
                     toasts := toasts ui @ [ToastInvalidMethods msg i (expr ?m) ?s ?enc]\<rparr>)"
    by (simp add: handlePreviewChange_def ce)
  have rx: "count_list (expr ?m) CHR ''='' \<noteq> 1 \<longrightarrow> \<not> methodExprValid (expr ?m)"
    using methodExprValid_one_equals by blast
  from ce hp rx show ?thesis by blast
qed

theorem C7_two_equals_witness:
  "\<exists>msg.
     CustomEval sampleEngine (Some [sampleVariable]) (Some sampleMethods) False =
       Inl (ErrorObject (Some ''invalid-methods'')
              (JsonText \<lparr>e_message = msg, e_index = 1, e_expr = ''P = V = R'',
                         e_sanitized = ''P = V = R'', e_encoded = ''P = V = R''\<rparr>)) \<and>
     handlePreviewChange (CustomEval sampleEngine) Dynamic (Some [sampleVariable])
       (Some sampleMethods) False emptyPreview =
       Inr \<lparr>preview = invalidMessage, finalAnsPreview = invalidMessage,
            toasts = [ToastInvalidMethods msg 1 ''P = V = R'' ''P = V = R'' ''P = V = R'']\<rparr> \<and>
     \<not> methodExprValid ''P = V = R''"
proof -
  have tr: "map (\<lambda>variable. variable\<lparr>name := trim (name variable)\<rparr>) [sampleVariable] =
              [sampleVariable]"
    by (simp add: sampleVariable_def trim_R)
  have i: "1 < length sampleMethods"
    by (simp add: sampleMethods_def)
  have nth: "sampleMethods ! 1 = \<lparr>expr = ''P = V = R'', explanation = None\<rparr>"
    by (simp add: sampleMethods_def)
  have pre: "evalMethods sampleEngine 0
           (resolveVariables sampleEngine False
              (map (\<lambda>variable. variable\<lparr>name := trim (name variable)\<rparr>) [sampleVariable]))
           (take 1 sampleMethods) = Inr [sampleVariable]"
    unfolding tr by (simp add: sampleMethods_def sampleEngine_def evalMethod_def)
  have two: "count_list (expr (sampleMethods ! 1)) CHR ''='' \<noteq> 1"
    unfolding nth by simp
  then have bad: "count_list (expr (sampleMethods ! 1)) CHR ''='' \<noteq> 1 \<or>
         isl (compute sampleEngine [sampleVariable]
                (substitute sampleEngine [sampleVariable]
                   (sanitize sampleEngine (expr (sampleMethods ! 1)))))"
    by simp
  from C7_malformed_method_is_reported [OF i pre bad, of emptyPreview] two
  show ?thesis
    unfolding tr nth by (simp add: sampleEngine_def emptyPreview_def)
qed

end
